theory Spec2Isabelle
  imports Complex_Main
begin

section \<open>Scale tuner\<close>

text \<open>
  The module function \<open>tune(scale, acc_rate)\<close> of \<open>step_methods/metropolis.py\<close>.
  Python floats are read as reals: the comparisons and the products are the ones of the
  source, the rounding of the floating-point product is not part of the model. The
  \<open>if\<close>/\<open>elif\<close> cascade is kept in the order of the source.
\<close>

definition tune :: "real \<Rightarrow> real \<Rightarrow> real" where
  "tune scale acc_rate =
     (if acc_rate < 1 / 1000 then scale * (1 / 10)
      else if acc_rate < 5 / 100 then scale * (5 / 10)
      else if acc_rate < 2 / 10 then scale * (9 / 10)
      else if acc_rate > 95 / 100 then scale * 10
      else if acc_rate > 75 / 100 then scale * 2
      else if acc_rate > 5 / 10 then scale * (11 / 10)
      else scale)"

text \<open>
  The table of section 4.2 of the specification, as an ordered list of
  (predicate, multiplier) pairs, and its first-match-wins evaluation; a rate that matches
  no row has multiplier 1. These two definitions follow the words of the specification
  and are compared with \<open>tune\<close> below.
\<close>

definition rate_table :: "((real \<Rightarrow> bool) \<times> real) list" where
  "rate_table =
     [(\<lambda>r. r < 1 / 1000, 1 / 10),
      (\<lambda>r. r < 5 / 100, 5 / 10),
      (\<lambda>r. r < 2 / 10, 9 / 10),
      (\<lambda>r. r > 95 / 100, 10),
      (\<lambda>r. r > 75 / 100, 2),
      (\<lambda>r. r > 5 / 10, 11 / 10)]"

fun first_match :: "((real \<Rightarrow> bool) \<times> real) list \<Rightarrow> real \<Rightarrow> real" where
  "first_match [] r = 1"
| "first_match ((p, m) # rows) r = (if p r then m else first_match rows r)"

section \<open>Floats, errors and arrays\<close>

text \<open>
  The exceptions that a step can raise. \<open>LogpError\<close> stands for any exception of the
  log-probability callable, which the step does not catch.
\<close>

datatype error = ZeroDivisionError | ValueError | IndexError | LogpError

text \<open>
  A log-probability is a Python float. Its finite values are read as reals; the special
  values are kept, since the specification speaks of a log-probability of minus infinity.
  \<open>fsub\<close>, \<open>fexp\<close>, \<open>fge0\<close> and \<open>flt\<close> are IEEE subtraction, exponential and
  comparison on these values: every comparison with \<open>NaN\<close> is false.
\<close>

datatype pyfloat = NaN | NegInf | Fin real | PosInf

fun fsub :: "pyfloat \<Rightarrow> pyfloat \<Rightarrow> pyfloat" where
  "fsub NaN y = NaN"
| "fsub x NaN = NaN"
| "fsub (Fin a) (Fin b) = Fin (a - b)"
| "fsub (Fin a) PosInf = NegInf"
| "fsub (Fin a) NegInf = PosInf"
| "fsub PosInf PosInf = NaN"
| "fsub PosInf y = PosInf"
| "fsub NegInf NegInf = NaN"
| "fsub NegInf y = NegInf"

fun fexp :: "pyfloat \<Rightarrow> pyfloat" where
  "fexp NaN = NaN"
| "fexp NegInf = Fin 0"
| "fexp (Fin d) = Fin (exp d)"
| "fexp PosInf = PosInf"

fun fge0 :: "pyfloat \<Rightarrow> bool" where
  "fge0 NaN = False"
| "fge0 NegInf = False"
| "fge0 (Fin d) = (0 \<le> d)"
| "fge0 PosInf = True"

fun flt :: "real \<Rightarrow> pyfloat \<Rightarrow> bool" where
  "flt u NaN = False"
| "flt u NegInf = False"
| "flt u (Fin x) = (u < x)"
| "flt u PosInf = True"

text \<open>
  State vectors are one-dimensional arrays, here lists. An elementwise binary operation
  of numpy broadcasts an array of length one against the other operand and raises
  \<open>ValueError\<close> on any other difference of lengths.
\<close>

definition broadcast2 :: "('a \<Rightarrow> 'b \<Rightarrow> 'c) \<Rightarrow> 'a list \<Rightarrow> 'b list \<Rightarrow> error + 'c list" where
  "broadcast2 f xs ys =
     (if length xs = length ys then Inr (map2 f xs ys)
      else if length xs = 1 then Inr (map (f (hd xs)) ys)
      else if length ys = 1 then Inr (map (\<lambda>x. f x (hd ys)) xs)
      else Inl ValueError)"

text \<open>
  \<open>numpy.round(x, 0)\<close> rounds to the nearest integer, a tie to the even neighbour.
  \<open>astype(int)\<close> casts to the 64-bit signed integer: it truncates towards zero, and a
  value outside the range of that type becomes its least value, \<open>- 2 ^ 63\<close>.
\<close>

definition np_round :: "real \<Rightarrow> real" where
  "np_round x =
     (let f = \<lfloor>x\<rfloor>; d = x - of_int f
      in if d < 1 / 2 then of_int f
         else if 1 / 2 < d then of_int (f + 1)
         else if even f then of_int f else of_int (f + 1))"

definition astype_int :: "real \<Rightarrow> int" where
  "astype_int x =
     (let t = (if 0 \<le> x then \<lfloor>x\<rfloor> else \<lceil>x\<rceil>)
      in if - (2 ^ 63) \<le> t \<and> t < 2 ^ 63 then t else - (2 ^ 63))"

text \<open>
  The masked assignment \<open>q[mask] = round(q[mask], 0).astype(int)\<close>: a boolean mask
  whose length is not the length of the array raises \<open>IndexError\<close>.
\<close>

definition round_masked :: "bool list \<Rightarrow> real list \<Rightarrow> error + real list" where
  "round_masked msk q =
     (if length msk \<noteq> length q then Inl IndexError
      else Inr (map2 (\<lambda>d x. if d then of_int (astype_int (np_round x)) else x) msk q))"

section \<open>Accept/reject primitive\<close>

text \<open>
  Modelled from the spec: \<open>metrop_select(mr, q, q0)\<close> is imported from the module
  \<open>arraystep\<close>, which is not among the sources. Section 4.5 of the specification:
  accept unconditionally if the difference is at least 0; otherwise draw one uniform
  value \<open>u\<close> and accept iff \<open>u < exp(mr)\<close>; return the candidate \<open>q\<close> on accept and
  the current state \<open>q0\<close> on reject. The draw is the first argument.
\<close>

definition metrop_select :: "real \<Rightarrow> pyfloat \<Rightarrow> 'a \<Rightarrow> 'a \<Rightarrow> 'a" where
  "metrop_select u mr q q0 =
     (if fge0 mr then q
      else if flt u (fexp mr) then q
      else q0)"

section \<open>Metropolis step\<close>

text \<open>
  A variable is known to the steps by its \<open>dtype\<close> only. The table \<open>discrete_types\<close>
  comes from the package core, which is not among the sources; it is a parameter of both
  constructors.
\<close>

record var =
  dtype :: string

text \<open>
  The proposal families of the module, and \<open>quad_potential\<close>, which the module imports.
  A family applied to \<open>S\<close> is a closure that draws a random deviate; the closure is kept
  as the pair of the family and \<open>S\<close>, and each draw is an argument of \<open>astep\<close>.
\<close>

datatype proposal_family =
  normal_proposal | cauchy_proposal | laplace_proposal | poisson_proposal | quad_potential

text \<open>
  The fields that both step classes set. The field \<open>tune\<close> of the source is
  \<open>tune_flag\<close> here, since \<open>tune\<close> is the module function.
\<close>

record step =
  scaling :: real
  tune_flag :: bool
  tune_interval :: int
  steps_until_tune :: int
  accepted :: int

record metropolis = step +
  proposal_dist :: "proposal_family \<times> real list"
  discrete :: "bool list"

type_synonym logp_fn = "real list \<Rightarrow> error + pyfloat"

text \<open>
  \<open>Metropolis.__init__\<close>. An argument that the caller leaves out is \<open>None\<close> and takes
  the default of the signature: \<open>S=None\<close>, \<open>proposal_dist=normal_proposal\<close>,
  \<open>scaling=1.\<close>, \<open>tune=True\<close>, \<open>tune_interval=100\<close>. The model context and the
  constructor of the base class are outside the sources and are left out.
\<close>

definition Metropolis_init ::
  "string list \<Rightarrow> var list \<Rightarrow> real list option \<Rightarrow> proposal_family option \<Rightarrow> real option
     \<Rightarrow> bool option \<Rightarrow> int option \<Rightarrow> metropolis" where
  "Metropolis_init discrete_types vars S proposal scaling0 tune0 interval0 =
     (let S1 = (case S of None \<Rightarrow> replicate (length vars) 1 | Some s \<Rightarrow> s);
          family = (case proposal of None \<Rightarrow> normal_proposal | Some f \<Rightarrow> f);
          interval = (case interval0 of None \<Rightarrow> 100 | Some n \<Rightarrow> n)
      in \<lparr> scaling = (case scaling0 of None \<Rightarrow> 1 | Some c \<Rightarrow> c),
           tune_flag = (case tune0 of None \<Rightarrow> True | Some b \<Rightarrow> b),
           tune_interval = interval,
           steps_until_tune = interval,
           accepted = 0,
           proposal_dist = (family, S1),
           discrete = map (\<lambda>v. dtype v \<in> set discrete_types) vars \<rparr>)"

text \<open>
  Lines 80 to 86 of \<open>astep\<close>: the tuning event. The rate is
  \<open>accepted / float(tune_interval)\<close>, which raises \<open>ZeroDivisionError\<close> for an
  interval of 0.
\<close>

definition tune_block :: "metropolis \<Rightarrow> error + metropolis" where
  "tune_block self =
     (if tune_flag self \<and> steps_until_tune self = 0 then
        (if tune_interval self = 0 then Inl ZeroDivisionError
         else Inr (self\<lparr> scaling := tune (scaling self)
                                    (of_int (accepted self) / of_int (tune_interval self)),
                         steps_until_tune := tune_interval self,
                         accepted := 0 \<rparr>))
      else Inr self)"

text \<open>
  Lines 88 to 92: the candidate. \<open>draw\<close> is the value of \<open>self.proposal_dist()\<close>.
\<close>

definition propose :: "metropolis \<Rightarrow> real list \<Rightarrow> real list \<Rightarrow> error + real list" where
  "propose self draw q0 =
     (let delta = map (\<lambda>d. d * scaling self) draw
      in case broadcast2 (+) q0 delta of
           Inl e \<Rightarrow> Inl e
         | Inr q \<Rightarrow> if list_ex id (discrete self) then round_masked (discrete self) q
                    else Inr q)"

text \<open>
  Lines 96 and 97: the condition \<open>any(q_new != q0) or all(q0 == q)\<close>; the second
  comparison is evaluated only when the first disjunct is false.
\<close>

definition counts_as_accepted :: "real list \<Rightarrow> real list \<Rightarrow> real list \<Rightarrow> error + bool" where
  "counts_as_accepted q_new q0 q =
     (case broadcast2 (\<lambda>a b. a \<noteq> b) q_new q0 of
        Inl e \<Rightarrow> Inl e
      | Inr ne \<Rightarrow>
          if list_ex id ne then Inr True
          else (case broadcast2 (\<lambda>a b. a = b) q0 q of
                  Inl e \<Rightarrow> Inl e
                | Inr eq \<Rightarrow> Inr (list_all id eq)))"

text \<open>
  \<open>Metropolis.astep(q0, logp)\<close>. The two random inputs of a call are arguments: \<open>draw\<close>,
  the deviate of the proposal distribution, and \<open>u\<close>, the uniform draw of the
  accept/reject primitive. The result is the updated instance and the returned state; a
  call that raises returns the exception.
\<close>

definition Metropolis_astep ::
  "metropolis \<Rightarrow> real list \<Rightarrow> real \<Rightarrow> real list \<Rightarrow> logp_fn \<Rightarrow> error + (metropolis \<times> real list)" where
  "Metropolis_astep self draw u q0 logp =
     (case tune_block self of
        Inl e \<Rightarrow> Inl e
      | Inr self1 \<Rightarrow>
     (case propose self1 draw q0 of
        Inl e \<Rightarrow> Inl e
      | Inr q \<Rightarrow>
     (case logp q of
        Inl e \<Rightarrow> Inl e
      | Inr lq \<Rightarrow>
     (case logp q0 of
        Inl e \<Rightarrow> Inl e
      | Inr lq0 \<Rightarrow>
     (let q_new = metrop_select u (fsub lq lq0) q q0
      in case counts_as_accepted q_new q0 q of
           Inl e \<Rightarrow> Inl e
         | Inr c \<Rightarrow>
             (let self2 = (if c then self1\<lparr> accepted := accepted self1 + 1 \<rparr> else self1)
              in Inr (self2\<lparr> steps_until_tune := steps_until_tune self2 - 1 \<rparr>, q_new)))))))"

text \<open>
  A sequence of calls on one instance, each with its own inputs; the first exception
  ends it.
\<close>

type_synonym call = "real list \<times> real \<times> real list \<times> logp_fn"

fun asteps :: "metropolis \<Rightarrow> call list \<Rightarrow> error + metropolis" where
  "asteps self [] = Inr self"
| "asteps self ((draw, u, q0, logp) # calls) =
     (case Metropolis_astep self draw u q0 logp of
        Inl e \<Rightarrow> Inl e
      | Inr (self1, q_new) \<Rightarrow> asteps self1 calls)"

section \<open>Binary Metropolis step\<close>

text \<open>
  \<open>BinaryMetropolis.__init__\<close>, with the defaults \<open>scaling=1.\<close>, \<open>tune=True\<close>,
  \<open>tune_interval=100\<close>. The test of the variables is the one of the source, membership
  of the \<open>dtype\<close> in \<open>discrete_types\<close>.
\<close>

definition BinaryMetropolis_init ::
  "string list \<Rightarrow> var list \<Rightarrow> real option \<Rightarrow> bool option \<Rightarrow> int option \<Rightarrow> error + step" where
  "BinaryMetropolis_init discrete_types vars scaling0 tune0 interval0 =
     (let interval = (case interval0 of None \<Rightarrow> 100 | Some n \<Rightarrow> n)
      in if \<not> list_all id (map (\<lambda>v. dtype v \<in> set discrete_types) vars)
         then Inl ValueError
         else Inr \<lparr> scaling = (case scaling0 of None \<Rightarrow> 1 | Some c \<Rightarrow> c),
                    tune_flag = (case tune0 of None \<Rightarrow> True | Some b \<Rightarrow> b),
                    tune_interval = interval,
                    steps_until_tune = interval,
                    accepted = 0 \<rparr>)"

text \<open>
  Lines 163 to 169 of \<open>BinaryMetropolis.astep\<close>: the candidate. \<open>rand i\<close> is element
  \<open>i\<close> of \<open>random(q0.shape)\<close>, so the array of draws has the shape of \<open>q0\<close>.
  \<open>True - x\<close> is \<open>1 - x\<close>.
\<close>

definition p_jump :: "step \<Rightarrow> real" where
  "p_jump self = 1 - (1 / 2) powr scaling self"

definition flip :: "step \<Rightarrow> (nat \<Rightarrow> real) \<Rightarrow> real list \<Rightarrow> real list" where
  "flip self rand q0 =
     (let rand_array = map rand [0..<length q0]
      in map2 (\<lambda>r x. if r < p_jump self then 1 - x else x) rand_array q0)"

definition BinaryMetropolis_astep ::
  "step \<Rightarrow> (nat \<Rightarrow> real) \<Rightarrow> real \<Rightarrow> real list \<Rightarrow> logp_fn \<Rightarrow> error + (step \<times> real list)" where
  "BinaryMetropolis_astep self rand u q0 logp =
     (let q = flip self rand q0
      in case logp q of
           Inl e \<Rightarrow> Inl e
         | Inr lq \<Rightarrow>
        (case logp q0 of
           Inl e \<Rightarrow> Inl e
         | Inr lq0 \<Rightarrow> Inr (self, metrop_select u (fsub lq lq0) q q0)))"

section \<open>Log-probability functions for concrete inputs\<close>

text \<open>
  Two log-probability callables: a flat one, and the point mass at \<open>p\<close>, whose
  log-probability is minus infinity everywhere else.
\<close>

definition flat_logp :: logp_fn where
  "flat_logp q = Inr (Fin 0)"

definition point_logp :: "real list \<Rightarrow> logp_fn" where
  "point_logp p q = Inr (if q = p then Fin 0 else NegInf)"

section \<open>Invariant of the counters\<close>

text \<open>
  The relation between the acceptance counter and the countdown that every call
  preserves on an instance with tuning enabled.
\<close>

definition counter_inv :: "metropolis \<Rightarrow> bool" where
  "counter_inv st \<longleftrightarrow> tune_flag st \<and> 0 \<le> accepted st \<and> 0 \<le> steps_until_tune st
      \<and> accepted st + steps_until_tune st \<le> tune_interval st"

section \<open>Evaluation of concrete calls\<close>

text \<open>The definitions that the simplifier unfolds to run a call on concrete inputs.\<close>

lemmas eval_defs = Metropolis_astep_def tune_block_def propose_def broadcast2_def
  round_masked_def counts_as_accepted_def metrop_select_def flat_logp_def point_logp_def
  tune_def np_round_def astype_int_def Let_def

section \<open>Auxiliary facts about one call\<close>

lemma tune_block_cases:
  assumes "tune_block st = Inr st1"
  shows "(tune_flag st \<and> steps_until_tune st = 0 \<and> tune_interval st \<noteq> 0
            \<and> st1 = st\<lparr> scaling := tune (scaling st) (of_int (accepted st) / of_int (tune_interval st)),
                        steps_until_tune := tune_interval st, accepted := 0 \<rparr>)
         \<or> (\<not> (tune_flag st \<and> steps_until_tune st = 0) \<and> st1 = st)"
  using assms by (auto simp: tune_block_def split: if_splits)

lemma Metropolis_astep_elim:
  assumes "Metropolis_astep st draw u q0 logp = Inr (st', qn)"
  obtains st1 q c where "tune_block st = Inr st1" "propose st1 draw q0 = Inr q"
    "qn = q \<or> qn = q0" "counts_as_accepted qn q0 q = Inr c"
    "st' = (if c then st1\<lparr> accepted := accepted st1 + 1 \<rparr> else st1)
             \<lparr> steps_until_tune := steps_until_tune st1 - 1 \<rparr>"
  using assms
  by (auto simp: Metropolis_astep_def Let_def metrop_select_def split: sum.splits if_splits)

lemma astep_counter_inv:
  assumes "Metropolis_astep st draw u q0 logp = Inr (st', qn)" "counter_inv st"
  shows "counter_inv st' \<and> tune_interval st' = tune_interval st"
proof -
  from assms(1) obtain st1 q c where t: "tune_block st = Inr st1"
    and s: "st' = (if c then st1\<lparr> accepted := accepted st1 + 1 \<rparr> else st1)
             \<lparr> steps_until_tune := steps_until_tune st1 - 1 \<rparr>"
    by (rule Metropolis_astep_elim)
  from tune_block_cases [OF t] assms(2) s show ?thesis
    by (auto simp: counter_inv_def)
qed

lemma asteps_counter_inv:
  "asteps st calls = Inr st' \<Longrightarrow> counter_inv st \<Longrightarrow>
     counter_inv st' \<and> tune_interval st' = tune_interval st"
proof (induction calls arbitrary: st)
  case Nil
  then show ?case by simp
next
  case (Cons c calls)
  obtain draw u q0 logp where c: "c = (draw, u, q0, logp)" by (cases c) auto
  from Cons.prems(1) c obtain st1 qn where
    a: "Metropolis_astep st draw u q0 logp = Inr (st1, qn)" and r: "asteps st1 calls = Inr st'"
    by (auto split: sum.splits)
  from astep_counter_inv [OF a Cons.prems(2)] Cons.IH [OF r] show ?case by simp
qed

lemma astep_lockstep:
  assumes "Metropolis_astep st draw u q0 logp = Inr (st', qn)"
  shows "if tune_flag st \<and> steps_until_tune st = 0
         then (accepted st' = 0 \<or> accepted st' = 1) \<and> steps_until_tune st' = tune_interval st - 1
         else (accepted st' = accepted st \<or> accepted st' = accepted st + 1)
              \<and> steps_until_tune st' = steps_until_tune st - 1"
proof -
  from assms obtain st1 q c where t: "tune_block st = Inr st1"
    and s: "st' = (if c then st1\<lparr> accepted := accepted st1 + 1 \<rparr> else st1)
             \<lparr> steps_until_tune := steps_until_tune st1 - 1 \<rparr>"
    by (rule Metropolis_astep_elim)
  from tune_block_cases [OF t] s show ?thesis
    by auto
qed

lemma astep_scaling:
  assumes "Metropolis_astep st draw u q0 logp = Inr (st', qn)"
  shows "tune_flag st' = tune_flag st \<and> (if tune_flag st \<and> steps_until_tune st = 0
         then scaling st' = tune (scaling st) (of_int (accepted st) / of_int (tune_interval st))
         else scaling st' = scaling st)"
proof -
  from assms obtain st1 q c where t: "tune_block st = Inr st1"
    and s: "st' = (if c then st1\<lparr> accepted := accepted st1 + 1 \<rparr> else st1)
             \<lparr> steps_until_tune := steps_until_tune st1 - 1 \<rparr>"
    by (rule Metropolis_astep_elim)
  from tune_block_cases [OF t] s show ?thesis
    by auto
qed

lemma asteps_scaling:
  "asteps st calls = Inr st' \<Longrightarrow> \<not> tune_flag st \<Longrightarrow> scaling st' = scaling st \<and> \<not> tune_flag st'"
proof (induction calls arbitrary: st)
  case Nil
  then show ?case by simp
next
  case (Cons c calls)
  obtain draw u q0 logp where c: "c = (draw, u, q0, logp)" by (cases c) auto
  from Cons.prems(1) c obtain st1 qn where
    a: "Metropolis_astep st draw u q0 logp = Inr (st1, qn)" and r: "asteps st1 calls = Inr st'"
    by (auto split: sum.splits)
  from astep_scaling [OF a] Cons.prems(2) have "scaling st1 = scaling st" "\<not> tune_flag st1" by auto
  with Cons.IH [OF r] show ?case by simp
qed

lemma astype_int_of_int:
  "- (2 ^ 63) \<le> k \<Longrightarrow> k < 2 ^ 63 \<Longrightarrow> astype_int (of_int k) = k"
  by (simp add: astype_int_def)

lemma np_round_half_even:
  obtains n :: int where "np_round x = of_int n" "\<bar>of_int n - x\<bar> \<le> 1 / 2"
    "\<bar>of_int n - x\<bar> = 1 / 2 \<longrightarrow> even n"
proof -
  have fl: "of_int \<lfloor>x\<rfloor> \<le> x" "x < of_int \<lfloor>x\<rfloor> + 1" by linarith+
  show thesis
  proof (cases "x - of_int \<lfloor>x\<rfloor> < 1 / 2")
    case True
    with fl have "np_round x = of_int \<lfloor>x\<rfloor>" "\<bar>of_int \<lfloor>x\<rfloor> - x\<bar> \<le> 1 / 2"
      "\<bar>of_int \<lfloor>x\<rfloor> - x\<bar> = 1 / 2 \<longrightarrow> even \<lfloor>x\<rfloor>"
      by (simp_all add: np_round_def Let_def)
    then show thesis by (rule that)
  next
    case False
    show thesis
    proof (cases "1 / 2 < x - of_int \<lfloor>x\<rfloor>")
      case True
      with fl have "np_round x = of_int (\<lfloor>x\<rfloor> + 1)" "\<bar>of_int (\<lfloor>x\<rfloor> + 1) - x\<bar> \<le> 1 / 2"
        "\<bar>of_int (\<lfloor>x\<rfloor> + 1) - x\<bar> = 1 / 2 \<longrightarrow> even (\<lfloor>x\<rfloor> + 1)"
        by (simp_all add: np_round_def Let_def)
      then show thesis by (rule that)
    next
      case h: False
      with False have eq: "x - of_int \<lfloor>x\<rfloor> = 1 / 2" by simp
      show thesis
      proof (cases "even \<lfloor>x\<rfloor>")
        case True
        with eq have "np_round x = of_int \<lfloor>x\<rfloor>" "\<bar>of_int \<lfloor>x\<rfloor> - x\<bar> \<le> 1 / 2"
          "\<bar>of_int \<lfloor>x\<rfloor> - x\<bar> = 1 / 2 \<longrightarrow> even \<lfloor>x\<rfloor>"
          by (simp_all add: np_round_def Let_def)
        then show thesis by (rule that)
      next
        case False
        with eq have "np_round x = of_int (\<lfloor>x\<rfloor> + 1)" "\<bar>of_int (\<lfloor>x\<rfloor> + 1) - x\<bar> \<le> 1 / 2"
          "\<bar>of_int (\<lfloor>x\<rfloor> + 1) - x\<bar> = 1 / 2 \<longrightarrow> even (\<lfloor>x\<rfloor> + 1)"
          by (simp_all add: np_round_def Let_def)
        then show thesis by (rule that)
      qed
    qed
  qed
qed

lemma rounded_coordinate:
  assumes "\<bar>x\<bar> < 2 ^ 63 - 1 / 2"
  shows "\<exists>n :: int. of_int (astype_int (np_round x)) = (of_int n :: real)
     \<and> \<bar>of_int n - x\<bar> \<le> 1 / 2 \<and> (\<bar>of_int n - x\<bar> = 1 / 2 \<longrightarrow> even n)"
proof -
  obtain n :: int where n: "np_round x = of_int n" "\<bar>of_int n - x\<bar> \<le> 1 / 2"
    "\<bar>of_int n - x\<bar> = 1 / 2 \<longrightarrow> even n"
    by (rule np_round_half_even)
  from n(2) assms have "- (2 ^ 63) < (of_int n :: real)" "(of_int n :: real) < 2 ^ 63"
    by linarith+
  then have "- (2 ^ 63) < n" "n < 2 ^ 63"
    by (simp_all only: of_int_less_iff [where 'a = real, symmetric] of_int_minus
          of_int_power of_int_numeral)
  then have "astype_int (of_int n) = n" by (simp add: astype_int_of_int)
  with n show ?thesis by auto
qed

text \<open>
  A value beyond the range of the cast: the discrete coordinate \<open>10 ^ 19\<close> becomes
  \<open>- 2 ^ 63\<close>.
\<close>

lemma round_masked_overflow:
  "round_masked [True] [10000000000000000000] = Inr [- 9223372036854775808]"
  by (simp add: round_masked_def np_round_def astype_int_def Let_def)

lemma round_masked_nth:
  assumes "round_masked msk q = Inr q'" "i < length q"
  shows "length msk = length q \<and> length q' = length q
     \<and> q' ! i = (if msk ! i then of_int (astype_int (np_round (q ! i))) else q ! i)"
  using assms by (auto simp: round_masked_def split: if_splits)

lemma propose_nth:
  assumes "propose st draw q0 = Inr q" "length draw = length q0" "i < length q0"
  shows "length q = length q0 \<and> q ! i =
     (if i < length (discrete st) \<and> discrete st ! i
      then of_int (astype_int (np_round (q0 ! i + draw ! i * scaling st)))
      else q0 ! i + draw ! i * scaling st)"
proof (cases "list_ex id (discrete st)")
  case True
  with assms(1,2) have r: "round_masked (discrete st) (map2 (+) q0 (map (\<lambda>d. d * scaling st) draw)) = Inr q"
    by (simp add: propose_def broadcast2_def)
  from round_masked_nth [OF r, of i] assms(2,3) show ?thesis by simp
next
  case False
  then have nd: "\<not> (i < length (discrete st) \<and> discrete st ! i)"
    by (auto simp: list_ex_iff in_set_conv_nth)
  from False assms(1,2) have "q = map2 (+) q0 (map (\<lambda>d. d * scaling st) draw)"
    by (simp add: propose_def broadcast2_def)
  with nd assms(2,3) show ?thesis by auto
qed

lemma propose_integer:
  assumes "propose st draw q0 = Inr q" "i < length q" "i < length (discrete st)" "discrete st ! i"
  shows "q ! i \<in> \<int>"
proof -
  from assms(3,4) have ex: "list_ex id (discrete st)"
    unfolding list_ex_length by auto
  show ?thesis
  proof (cases "broadcast2 (+) q0 (map (\<lambda>d. d * scaling st) draw)")
    case (Inl e)
    with assms(1) show ?thesis by (simp add: propose_def)
  next
    case (Inr s)
    with assms(1) ex have r: "round_masked (discrete st) s = Inr q"
      by (simp add: propose_def)
    then have l: "length s = length q"
      by (simp add: round_masked_def split: if_splits) auto
    with assms(2) have "i < length s" by simp
    from round_masked_nth [OF r this] assms(4)
    have "q ! i = of_int (astype_int (np_round (s ! i)))" by simp
    then show ?thesis by simp
  qed
qed

lemma counts_as_accepted_eq:
  assumes "length q_new = length q0" "length q = length q0"
  shows "counts_as_accepted q_new q0 q =
     Inr ((\<exists>i<length q0. q_new ! i \<noteq> q0 ! i) \<or> (\<forall>i<length q0. q0 ! i = q ! i))"
proof -
  have a: "list_ex id (map2 (\<lambda>a b. a \<noteq> b) q_new q0) \<longleftrightarrow> (\<exists>i<length q0. q_new ! i \<noteq> q0 ! i)"
    using assms(1) by (auto simp: list_ex_length)
  have b: "list_all id (map2 (\<lambda>a b. a = b) q0 q) \<longleftrightarrow> (\<forall>i<length q0. q0 ! i = q ! i)"
    using assms(2) by (auto simp: list_all_length)
  show ?thesis using assms a b by (auto simp: counts_as_accepted_def broadcast2_def)
qed

lemma flip_nth:
  "length (flip st rand q0) = length q0 \<and>
   (i < length q0 \<longrightarrow> flip st rand q0 ! i = (if rand i < p_jump st then 1 - q0 ! i else q0 ! i))"
  by (simp add: flip_def)

lemma propose_length:
  assumes "propose st draw q0 = Inr q" "length draw = length q0"
  shows "length q = length q0"
proof (cases "list_ex id (discrete st)")
  case True
  with assms have "round_masked (discrete st) (map2 (+) q0 (map (\<lambda>d. d * scaling st) draw)) = Inr q"
    by (simp add: propose_def broadcast2_def)
  then show ?thesis using assms(2)
    by (simp add: round_masked_def split: if_splits) auto
next
  case False
  with assms have "q = map2 (+) q0 (map (\<lambda>d. d * scaling st) draw)"
    by (simp add: propose_def broadcast2_def)
  with assms(2) show ?thesis by simp
qed

lemma tune_block_accepted:
  assumes "tune_block st = Inr base"
  shows "accepted base = (if tune_flag st \<and> steps_until_tune st = 0 then 0 else accepted st)
     \<and> discrete base = discrete st"
  using tune_block_cases [OF assms] by auto

lemma half_not_int: "(1 / 2 :: real) \<notin> \<int>"
proof
  assume "(1 / 2 :: real) \<in> \<int>"
  then obtain k :: int where "(1 / 2 :: real) = of_int k" by (auto elim: Ints_cases)
  then have "(1 :: real) = of_int (2 * k)" by simp
  then have "(1 :: int) = 2 * k" by (simp only: of_int_eq_1_iff [symmetric])
  then show False by presburger
qed

lemma less_two_cases: "j < Suc (Suc 0) \<Longrightarrow> j = 0 \<or> j = Suc 0"
  by arith

section \<open>Properties of the scale tuner\<close>

text \<open>
  Claim C1. For every strictly positive scale \<open>s\<close> and every acceptance rate \<open>r\<close>,
  \<open>tune s r\<close> is \<open>s\<close> times the multiplier that the first matching row of the table
  selects, in the order \<open>< 0.001\<close>, \<open>< 0.05\<close>, \<open>< 0.2\<close>, \<open>> 0.95\<close>, \<open>> 0.75\<close>,
  \<open>> 0.5\<close>, and \<open>s\<close> itself when no row matches; a rate of 0.97 gives \<open>s * 10\<close>, and
  every rate in the closed interval from 0.2 to 0.5 leaves \<open>s\<close> unchanged.
\<close>

theorem tune_first_match:
  assumes "0 < s"
  shows "tune s r = s * first_match rate_table r
    \<and> tune s (97 / 100) = s * 10
    \<and> (2 / 10 \<le> r \<and> r \<le> 5 / 10 \<longrightarrow> tune s r = s)"
  by (simp add: tune_def rate_table_def)

theorem tune_first_match_witness:
  "(0::real) < 2 \<and> tune 2 (3 / 10) = 2 * first_match rate_table (3 / 10)
     \<and> tune 2 (97 / 100) = 2 * 10 \<and> tune 2 (3 / 10) = 2"
  using tune_first_match [of 2 "3 / 10"] by simp

section \<open>Properties of the accept/reject primitive\<close>

text \<open>
  Claim C2. Given the difference of the log-probabilities, the candidate and the current
  state, the primitive returns the candidate whenever the difference is at least 0; for a
  finite negative difference \<open>d\<close> it returns the candidate iff the uniform draw \<open>u\<close>
  is below \<open>exp d\<close>, and the current state otherwise; for a difference of minus
  infinity it returns the current state. It is a total function, so no call raises. The
  draw is uniform on the unit interval, hence not negative.
\<close>

theorem metrop_select_rule:
  assumes "0 \<le> u"
  shows "(0 \<le> d \<longrightarrow> metrop_select u (Fin d) q q0 = q)
    \<and> metrop_select u PosInf q q0 = q
    \<and> (d < 0 \<longrightarrow> metrop_select u (Fin d) q q0 = (if u < exp d then q else q0))
    \<and> metrop_select u NegInf q q0 = q0"
  using assms by (simp add: metrop_select_def)

text \<open>
  The rule at the draw 0: the differences 0 and -1 accept the candidate \<open>[1]\<close>, minus
  infinity keeps the current state \<open>[0]\<close>.
\<close>

theorem metrop_select_rule_witness:
  "(0::real) \<le> 0
   \<and> metrop_select 0 (Fin 0) [1::real] [0] = [1]
   \<and> metrop_select 0 (Fin (- 1)) [1::real] [0] = [1]
   \<and> metrop_select 0 NegInf [1::real] [0] = [0]"
proof -
  have h: "(0::real) \<le> 0" by simp
  from metrop_select_rule [OF h, of 0 "[1::real]" "[0]"]
  have a: "metrop_select 0 (Fin 0) [1::real] [0] = [1]" by simp
  from metrop_select_rule [OF h, of "- 1" "[1::real]" "[0]"]
  have b: "metrop_select 0 (Fin (- 1)) [1::real] [0] = [1]"
    and c: "metrop_select 0 NegInf [1::real] [0] = [0]" by simp_all
  from h a b c show ?thesis by (intro conjI)
qed

section \<open>Properties of the Metropolis step\<close>

text \<open>
  Claim C3, as amended. For an instance constructed with tuning enabled and a tune
  interval that is not negative, after every sequence of calls that return the acceptance
  counter is at most the tune interval. In every call that returns, the counter is reset
  exactly when the countdown is: on a call that finds tuning enabled and the countdown at
  zero, the counter leaves the call as 0 or 1 and the countdown as the tune interval minus
  one; on any other call the counter is kept or grows by one and the countdown drops by
  one.
\<close>

theorem accepted_bounded_when_tuning:
  assumes "self = Metropolis_init dts vars S pd sc tn ti"
    and "tune_flag self" and "0 \<le> tune_interval self"
    and "asteps self calls = Inr self1"
  shows "accepted self1 \<le> tune_interval self1
    \<and> (Metropolis_astep st draw u q0 logp = Inr (st1, q_new) \<longrightarrow>
         (if tune_flag st \<and> steps_until_tune st = 0
          then (accepted st1 = 0 \<or> accepted st1 = 1)
               \<and> steps_until_tune st1 = tune_interval st - 1
          else (accepted st1 = accepted st \<or> accepted st1 = accepted st + 1)
               \<and> steps_until_tune st1 = steps_until_tune st - 1))"
proof -
  have "accepted self = 0" "steps_until_tune self = tune_interval self"
    unfolding assms(1) by (simp_all add: Metropolis_init_def Let_def)
  with assms(2,3) have "counter_inv self"
    by (simp add: counter_inv_def)
  from asteps_counter_inv [OF assms(4) this] have "counter_inv self1" by simp
  then have a: "accepted self1 \<le> tune_interval self1" by (simp add: counter_inv_def)
  show ?thesis
  proof (intro conjI impI)
    show "accepted self1 \<le> tune_interval self1" by (rule a)
  next
    assume "Metropolis_astep st draw u q0 logp = Inr (st1, q_new)"
    then show "if tune_flag st \<and> steps_until_tune st = 0
          then (accepted st1 = 0 \<or> accepted st1 = 1)
               \<and> steps_until_tune st1 = tune_interval st - 1
          else (accepted st1 = accepted st \<or> accepted st1 = accepted st + 1)
               \<and> steps_until_tune st1 = steps_until_tune st - 1"
      by (rule astep_lockstep)
  qed
qed

text \<open>
  An instance with tune interval 1 and two accepted calls; the second call is a tuning
  event.
\<close>

theorem accepted_bounded_when_tuning_witness:
  "tune_flag (Metropolis_init [] [\<lparr>dtype = ''float64''\<rparr>] None None None None (Some 1))
   \<and> 0 \<le> tune_interval (Metropolis_init [] [\<lparr>dtype = ''float64''\<rparr>] None None None None (Some 1))
   \<and> asteps (Metropolis_init [] [\<lparr>dtype = ''float64''\<rparr>] None None None None (Some 1))
        [([0], 0, [0], flat_logp), ([0], 0, [0], flat_logp)]
      = Inr \<lparr>scaling = 10, tune_flag = True, tune_interval = 1, steps_until_tune = 0,
              accepted = 1, proposal_dist = (normal_proposal, [1]), discrete = [False]\<rparr>
   \<and> accepted \<lparr>scaling = 10, tune_flag = True, tune_interval = 1, steps_until_tune = 0,
              accepted = 1, proposal_dist = (normal_proposal, [1]), discrete = [False]\<rparr>
       \<le> tune_interval \<lparr>scaling = 10, tune_flag = True, tune_interval = 1,
              steps_until_tune = 0, accepted = 1, proposal_dist = (normal_proposal, [1]),
              discrete = [False]\<rparr>
   \<and> Metropolis_astep
        \<lparr>scaling = 1, tune_flag = True, tune_interval = 1, steps_until_tune = 0,
          accepted = 1, proposal_dist = (normal_proposal, [1]), discrete = [False]\<rparr>
        [0] 0 [0] flat_logp
      = Inr (\<lparr>scaling = 10, tune_flag = True, tune_interval = 1, steps_until_tune = 0,
              accepted = 1, proposal_dist = (normal_proposal, [1]), discrete = [False]\<rparr>, [0])"
proof -
  let ?s = "Metropolis_init [] [\<lparr>dtype = ''float64''\<rparr>] None None None None (Some 1)"
  let ?sa = "\<lparr>scaling = 1, tune_flag = True, tune_interval = 1, steps_until_tune = 1,
          accepted = 0, proposal_dist = (normal_proposal, [1]), discrete = [False]\<rparr>"
  let ?sb = "\<lparr>scaling = 1, tune_flag = True, tune_interval = 1, steps_until_tune = 0,
          accepted = 1, proposal_dist = (normal_proposal, [1]), discrete = [False]\<rparr>"
  let ?sc = "\<lparr>scaling = 10, tune_flag = True, tune_interval = 1, steps_until_tune = 0,
          accepted = 1, proposal_dist = (normal_proposal, [1]), discrete = [False]\<rparr>"
  have i: "?s = ?sa"
    by (simp add: Metropolis_init_def)
  have h2: "tune_flag ?s" and h3: "0 \<le> tune_interval ?s"
    by (simp_all add: i)
  have s1: "Metropolis_astep ?sa [0] 0 [0] flat_logp = Inr (?sb, [0])"
    by (simp add: eval_defs)
  have s2: "Metropolis_astep ?sb [0] 0 [0] flat_logp = Inr (?sc, [0])"
    by (simp add: eval_defs)
  have h4: "asteps ?s [([0], 0, [0], flat_logp), ([0], 0, [0], flat_logp)] = Inr ?sc"
    by (simp add: i s1 s2)
  from accepted_bounded_when_tuning [OF refl h2 h3 h4, of ?sb "[0]" 0 "[0]" flat_logp ?sc "[0]"]
  have "accepted ?sc \<le> tune_interval ?sc" by (rule conjunct1)
  with h2 h3 h4 s2 show ?thesis by (intro conjI)
qed

text \<open>
  With tuning disabled nothing resets the counter: an instance with tune interval 1 has
  counted 2 after two accepted calls.
\<close>

theorem accepted_exceeds_interval_counterexample:
  "asteps (Metropolis_init [] [\<lparr>dtype = ''float64''\<rparr>] None None None (Some False) (Some 1))
        [([0], 0, [0], flat_logp), ([0], 0, [0], flat_logp)]
      = Inr \<lparr>scaling = 1, tune_flag = False, tune_interval = 1, steps_until_tune = - 1,
              accepted = 2, proposal_dist = (normal_proposal, [1]), discrete = [False]\<rparr>
   \<and> \<not> accepted \<lparr>scaling = 1, tune_flag = False, tune_interval = 1, steps_until_tune = - 1,
              accepted = 2, proposal_dist = (normal_proposal, [1]), discrete = [False]\<rparr>
       \<le> tune_interval \<lparr>scaling = 1, tune_flag = False, tune_interval = 1,
              steps_until_tune = - 1, accepted = 2, proposal_dist = (normal_proposal, [1]),
              discrete = [False]\<rparr>"
proof -
  let ?sa = "\<lparr>scaling = 1, tune_flag = False, tune_interval = 1, steps_until_tune = 1,
          accepted = 0, proposal_dist = (normal_proposal, [1]), discrete = [False]\<rparr>"
  let ?sc = "\<lparr>scaling = 1, tune_flag = False, tune_interval = 1, steps_until_tune = 0,
          accepted = 1, proposal_dist = (normal_proposal, [1]), discrete = [False]\<rparr>"
  let ?sd = "\<lparr>scaling = 1, tune_flag = False, tune_interval = 1, steps_until_tune = - 1,
          accepted = 2, proposal_dist = (normal_proposal, [1]), discrete = [False]\<rparr>"
  have i: "Metropolis_init [] [\<lparr>dtype = ''float64''\<rparr>] None None None (Some False) (Some 1) = ?sa"
    by (simp add: Metropolis_init_def)
  have s1: "Metropolis_astep ?sa [0] 0 [0] flat_logp = Inr (?sc, [0])"
    by (simp add: eval_defs)
  have s2: "Metropolis_astep ?sc [0] 0 [0] flat_logp = Inr (?sd, [0])"
    by (simp add: eval_defs)
  show ?thesis by (simp add: i s1 s2)
qed

text \<open>
  Claim C4, as amended. In every call that returns, on a deviate of the shape of the
  state, the counter leaves the call as its value after the tuning block (0 on a tuning
  event, the value at entry otherwise) plus one if the returned state differs from the
  input state in some coordinate or the candidate equals the input state in every
  coordinate, and as that value itself otherwise.
\<close>

theorem accepted_increment_rule:
  assumes "Metropolis_astep st draw u q0 logp = Inr (st1, q_new)"
    and "length draw = length q0"
  shows "\<exists>base q. tune_block st = Inr base \<and> propose base draw q0 = Inr q
    \<and> accepted base = (if tune_flag st \<and> steps_until_tune st = 0 then 0 else accepted st)
    \<and> accepted st1 = accepted base +
         (if (\<exists>i<length q0. q_new ! i \<noteq> q0 ! i) \<or> (\<forall>i<length q0. q0 ! i = q ! i)
          then 1 else 0)"
proof -
  from assms(1) obtain base q c where t: "tune_block st = Inr base"
    and p: "propose base draw q0 = Inr q" and qn: "q_new = q \<or> q_new = q0"
    and c: "counts_as_accepted q_new q0 q = Inr c"
    and s: "st1 = (if c then base\<lparr> accepted := accepted base + 1 \<rparr> else base)
             \<lparr> steps_until_tune := steps_until_tune base - 1 \<rparr>"
    by (rule Metropolis_astep_elim)
  have lq: "length q = length q0" by (rule propose_length [OF p assms(2)])
  with qn have "length q_new = length q0" by auto
  from counts_as_accepted_eq [OF this lq] c
  have "c \<longleftrightarrow> (\<exists>i<length q0. q_new ! i \<noteq> q0 ! i) \<or> (\<forall>i<length q0. q0 ! i = q ! i)"
    by simp
  with s have "accepted st1 = accepted base +
         (if (\<exists>i<length q0. q_new ! i \<noteq> q0 ! i) \<or> (\<forall>i<length q0. q0 ! i = q ! i)
          then 1 else 0)"
    by (cases c) simp_all
  with t p tune_block_accepted [OF t] show ?thesis by blast
qed

text \<open>
  A candidate that coincides with the current state is counted as accepted.
\<close>

theorem accepted_increment_rule_witness:
  "Metropolis_astep
     \<lparr>scaling = 1, tune_flag = True, tune_interval = 100, steps_until_tune = 100,
       accepted = 0, proposal_dist = (normal_proposal, [1]), discrete = [False]\<rparr>
     [0] 0 [0] flat_logp
   = Inr (\<lparr>scaling = 1, tune_flag = True, tune_interval = 100, steps_until_tune = 99,
            accepted = 1, proposal_dist = (normal_proposal, [1]), discrete = [False]\<rparr>, [0])
   \<and> length [0::real] = length [0::real]
   \<and> (\<exists>base q.
        tune_block \<lparr>scaling = 1, tune_flag = True, tune_interval = 100, steps_until_tune = 100,
          accepted = 0, proposal_dist = (normal_proposal, [1]), discrete = [False]\<rparr> = Inr base
        \<and> propose base [0] [0] = Inr q
        \<and> accepted base = 0
        \<and> (1::int) = accepted base +
             (if (\<exists>i<length [0::real]. [0::real] ! i \<noteq> [0] ! i)
                 \<or> (\<forall>i<length [0::real]. [0] ! i = q ! i) then 1 else 0))"
proof -
  let ?a = "\<lparr>scaling = 1, tune_flag = True, tune_interval = 100, steps_until_tune = 100,
       accepted = 0, proposal_dist = (normal_proposal, [1]), discrete = [False]\<rparr>"
  let ?b = "\<lparr>scaling = 1, tune_flag = True, tune_interval = 100, steps_until_tune = 99,
       accepted = 1, proposal_dist = (normal_proposal, [1]), discrete = [False]\<rparr>"
  have h1: "Metropolis_astep ?a [0] 0 [0] flat_logp = Inr (?b, [0])"
    by (simp add: eval_defs)
  have h2: "length [0::real] = length [0::real]" by simp
  from accepted_increment_rule [OF h1 h2]
  have "\<exists>base q. tune_block ?a = Inr base \<and> propose base [0] [0] = Inr q
        \<and> accepted base = 0
        \<and> (1::int) = accepted base +
             (if (\<exists>i<length [0::real]. [0::real] ! i \<noteq> [0] ! i)
                 \<or> (\<forall>i<length [0::real]. [0] ! i = q ! i) then 1 else 0)"
    by simp
  with h1 h2 show ?thesis by (intro conjI)
qed

text \<open>
  A tuning event with a rejected candidate: the counter enters the call as 1 and leaves
  it as 0, although the returned state \<open>[0]\<close> is the input state and the candidate
  \<open>[10]\<close> is not, so the counter is neither unchanged nor incremented.
\<close>

theorem accepted_changed_on_rejection_counterexample:
  "Metropolis_astep
     \<lparr>scaling = 1, tune_flag = True, tune_interval = 1, steps_until_tune = 0,
       accepted = 1, proposal_dist = (normal_proposal, [1]), discrete = [False]\<rparr>
     [1] 0 [0] (point_logp [0])
   = Inr (\<lparr>scaling = 10, tune_flag = True, tune_interval = 1, steps_until_tune = 0,
            accepted = 0, proposal_dist = (normal_proposal, [1]), discrete = [False]\<rparr>, [0])
   \<and> propose \<lparr>scaling = 10, tune_flag = True, tune_interval = 1, steps_until_tune = 1,
       accepted = 0, proposal_dist = (normal_proposal, [1]), discrete = [False]\<rparr> [1] [0]
     = Inr [10]
   \<and> (0::int) \<noteq> 1 \<and> (0::int) \<noteq> 1 + 1 \<and> [10::real] \<noteq> [0]"
  by (simp add: eval_defs)

text \<open>
  Claim C5. A step constructed without a proposal family uses \<open>normal_proposal\<close>, the
  default of the signature, not \<open>quad_potential\<close>, which the docstring of the class
  names as the default; without \<open>S\<close>, the scale is a vector of ones with one entry
  per variable.
\<close>

theorem default_proposal_is_normal:
  "proposal_dist (Metropolis_init [''int64''] [\<lparr>dtype = ''float64''\<rparr>, \<lparr>dtype = ''int64''\<rparr>]
       None None None None None) = (normal_proposal, [1, 1])
   \<and> normal_proposal \<noteq> quad_potential"
  by (simp add: Metropolis_init_def)

text \<open>
  Claim C7, as amended. In every call that returns, every coordinate of the returned
  state that is flagged discrete is an integer, provided the flagged coordinates of the
  input state are integers. For a deviate of the shape of the state, every flagged
  coordinate of the candidate is an integer, and it is the integer nearest to the current
  value plus the delta, a tie going to the even neighbour, when that sum is below
  \<open>2 ^ 63 - 1 / 2\<close> in absolute value, so that the rounded value is in the range of the
  integer cast; every other coordinate of the candidate is the current value plus the
  delta exactly.
\<close>

theorem discrete_coordinates_integer:
  assumes "Metropolis_astep st draw u q0 logp = Inr (st1, q_new)"
    and "\<forall>j<length q0. j < length (discrete st) \<and> discrete st ! j \<longrightarrow> q0 ! j \<in> \<int>"
  shows "(i < length q_new \<and> i < length (discrete st) \<and> discrete st ! i \<longrightarrow> q_new ! i \<in> \<int>)
    \<and> (propose b draw q0 = Inr q \<and> length draw = length q0 \<and> k < length q0 \<longrightarrow>
         (if k < length (discrete b) \<and> discrete b ! k
          then q ! k \<in> \<int>
               \<and> (\<bar>q0 ! k + draw ! k * scaling b\<bar> < 2 ^ 63 - 1 / 2 \<longrightarrow>
                    (\<exists>n :: int. q ! k = of_int n
                       \<and> \<bar>of_int n - (q0 ! k + draw ! k * scaling b)\<bar> \<le> 1 / 2
                       \<and> (\<bar>of_int n - (q0 ! k + draw ! k * scaling b)\<bar> = 1 / 2
                            \<longrightarrow> even n)))
          else q ! k = q0 ! k + draw ! k * scaling b))"
proof (intro conjI impI)
  assume i: "i < length q_new \<and> i < length (discrete st) \<and> discrete st ! i"
  from assms(1) obtain base c where t: "tune_block st = Inr base"
    and p: "propose base draw q0 = Inr c" and qn: "q_new = c \<or> q_new = q0"
    by (rule Metropolis_astep_elim)
  from tune_block_accepted [OF t] have d: "discrete base = discrete st" by simp
  from qn show "q_new ! i \<in> \<int>"
  proof
    assume "q_new = c"
    with propose_integer [OF p, of i] i d show ?thesis by simp
  next
    assume "q_new = q0"
    with assms(2) i show ?thesis by simp
  qed
next
  let ?x = "q0 ! k + draw ! k * scaling b"
  assume h: "propose b draw q0 = Inr q \<and> length draw = length q0 \<and> k < length q0"
  then have n: "q ! k =
     (if k < length (discrete b) \<and> discrete b ! k
      then of_int (astype_int (np_round ?x)) else ?x)"
    using propose_nth [of b draw q0 q k] by simp
  show "if k < length (discrete b) \<and> discrete b ! k
          then q ! k \<in> \<int>
               \<and> (\<bar>?x\<bar> < 2 ^ 63 - 1 / 2 \<longrightarrow>
                    (\<exists>n :: int. q ! k = of_int n \<and> \<bar>of_int n - ?x\<bar> \<le> 1 / 2
                       \<and> (\<bar>of_int n - ?x\<bar> = 1 / 2 \<longrightarrow> even n)))
          else q ! k = ?x"
  proof (cases "k < length (discrete b) \<and> discrete b ! k")
    case True
    with n have e: "q ! k = of_int (astype_int (np_round ?x))" by simp
    then have "q ! k \<in> \<int>" by simp
    moreover have "\<bar>?x\<bar> < 2 ^ 63 - 1 / 2 \<longrightarrow>
        (\<exists>n :: int. q ! k = of_int n \<and> \<bar>of_int n - ?x\<bar> \<le> 1 / 2
           \<and> (\<bar>of_int n - ?x\<bar> = 1 / 2 \<longrightarrow> even n))"
      unfolding e by (rule impI) (rule rounded_coordinate)
    ultimately show ?thesis using True by simp
  next
    case False
    with n have "q ! k = ?x" by simp
    with False show ?thesis by (simp only: if_False)
  qed
qed

text \<open>
  A state with one discrete and one continuous coordinate: the deviate moves both by one
  half, the discrete coordinate is a tie and is rounded to the even 0, the continuous one
  is kept.
\<close>

theorem discrete_coordinates_integer_witness:
  "Metropolis_astep
     \<lparr>scaling = 1, tune_flag = True, tune_interval = 100, steps_until_tune = 100,
       accepted = 0, proposal_dist = (normal_proposal, [1, 1]), discrete = [True, False]\<rparr>
     [1 / 2, 1 / 2] 0 [0, 0] flat_logp
   = Inr (\<lparr>scaling = 1, tune_flag = True, tune_interval = 100, steps_until_tune = 99,
            accepted = 1, proposal_dist = (normal_proposal, [1, 1]),
            discrete = [True, False]\<rparr>, [0, 1 / 2])
   \<and> propose
     \<lparr>scaling = 1, tune_flag = True, tune_interval = 100, steps_until_tune = 100,
       accepted = 0, proposal_dist = (normal_proposal, [1, 1]), discrete = [True, False]\<rparr>
     [1 / 2, 1 / 2] [0, 0] = Inr [0, 1 / 2]
   \<and> [0, 1 / 2 :: real] ! 0 \<in> \<int>
   \<and> \<bar>[0, 0 :: real] ! 0 + [1 / 2, 1 / 2] ! 0 * 1\<bar> < 2 ^ 63 - 1 / 2
   \<and> (\<exists>n :: int. [0, 1 / 2 :: real] ! 0 = of_int n
         \<and> \<bar>of_int n - ([0, 0 :: real] ! 0 + [1 / 2, 1 / 2] ! 0 * 1)\<bar> \<le> 1 / 2
         \<and> even n)
   \<and> [0, 1 / 2 :: real] ! 1 = [0, 0] ! 1 + [1 / 2, 1 / 2] ! 1 * 1"
proof -
  let ?a = "\<lparr>scaling = 1, tune_flag = True, tune_interval = 100, steps_until_tune = 100,
       accepted = 0, proposal_dist = (normal_proposal, [1, 1]), discrete = [True, False]\<rparr>"
  let ?b = "\<lparr>scaling = 1, tune_flag = True, tune_interval = 100, steps_until_tune = 99,
       accepted = 1, proposal_dist = (normal_proposal, [1, 1]), discrete = [True, False]\<rparr>"
  have p: "propose ?a [1 / 2, 1 / 2] [0, 0] = Inr [0, 1 / 2]"
    by (simp add: eval_defs)
  have h1: "Metropolis_astep ?a [1 / 2, 1 / 2] 0 [0, 0] flat_logp = Inr (?b, [0, 1 / 2])"
    by (simp add: eval_defs)
  have h2: "\<forall>j<length [0, 0 :: real]. j < length (discrete ?a) \<and> discrete ?a ! j
      \<longrightarrow> [0, 0 :: real] ! j \<in> \<int>"
    by (auto dest!: less_two_cases)
  have h3: "\<bar>[0, 0 :: real] ! 0 + [1 / 2, 1 / 2] ! 0 * 1\<bar> < 2 ^ 63 - 1 / 2"
    by simp
  note r = discrete_coordinates_integer [OF h1 h2, of 0 ?a "[0, 1 / 2]" 1]
  note r0 = discrete_coordinates_integer [OF h1 h2, of 0 ?a "[0, 1 / 2]" 0]
  from r have a: "[0, 1 / 2 :: real] ! 0 \<in> \<int>" by simp
  from r p have b: "[0, 1 / 2 :: real] ! 1 = [0, 0] ! 1 + [1 / 2, 1 / 2] ! 1 * 1" by simp
  from r0 p have "\<exists>n :: int. (0 :: real) = of_int n \<and> \<bar>of_int n - (1 / 2 :: real)\<bar> \<le> 1 / 2
      \<and> (\<bar>of_int n - (1 / 2 :: real)\<bar> = 1 / 2 \<longrightarrow> even n)"
    by simp
  then have c: "\<exists>n :: int. [0, 1 / 2 :: real] ! 0 = of_int n
         \<and> \<bar>of_int n - ([0, 0 :: real] ! 0 + [1 / 2, 1 / 2] ! 0 * 1)\<bar> \<le> 1 / 2
         \<and> even n"
    by auto
  from h1 p a h3 c b show ?thesis by (intro conjI)
qed

text \<open>
  A mixed state whose first coordinate is flagged discrete and whose second is
  continuous: the rejected candidate \<open>[0, 0]\<close> returns the input state as it is, and its
  coordinate \<open>1 / 2\<close> is flagged discrete and is not an integer.
\<close>

theorem rejected_state_not_integer_counterexample:
  "Metropolis_astep
     \<lparr>scaling = 1, tune_flag = True, tune_interval = 100, steps_until_tune = 100,
       accepted = 0, proposal_dist = (normal_proposal, [1, 1]), discrete = [True, False]\<rparr>
     [0, 0] 0 [1 / 2, 0] (point_logp [1 / 2, 0])
   = Inr (\<lparr>scaling = 1, tune_flag = True, tune_interval = 100, steps_until_tune = 99,
            accepted = 0, proposal_dist = (normal_proposal, [1, 1]),
            discrete = [True, False]\<rparr>, [1 / 2, 0])
   \<and> [True, False] ! 0 \<and> \<not> [True, False] ! 1 \<and> [1 / 2, 0 :: real] ! 0 \<notin> \<int>"
  by (simp add: eval_defs half_not_int)

text \<open>
  Claim C8. A call that returns and does not find tuning enabled with the countdown at
  zero leaves the scale unchanged; with tuning disabled the scale is the same after any
  sequence of calls.
\<close>

theorem scaling_changes_only_at_tuning:
  "(Metropolis_astep st draw u q0 logp = Inr (st1, q_new)
      \<and> \<not> (tune_flag st \<and> steps_until_tune st = 0) \<longrightarrow> scaling st1 = scaling st)
   \<and> (asteps st calls = Inr st2 \<and> \<not> tune_flag st \<longrightarrow> scaling st2 = scaling st)"
  using astep_scaling [of st draw u q0 logp st1 q_new] asteps_scaling [of st calls st2]
  by auto

text \<open>
  One call on an instance with tuning disabled and the countdown at zero.
\<close>

theorem scaling_changes_only_at_tuning_witness:
  "Metropolis_astep
     \<lparr>scaling = 3, tune_flag = False, tune_interval = 1, steps_until_tune = 0,
       accepted = 1, proposal_dist = (normal_proposal, [1]), discrete = [False]\<rparr>
     [0] 0 [0] flat_logp
   = Inr (\<lparr>scaling = 3, tune_flag = False, tune_interval = 1, steps_until_tune = - 1,
            accepted = 2, proposal_dist = (normal_proposal, [1]), discrete = [False]\<rparr>, [0])
   \<and> asteps
     \<lparr>scaling = 3, tune_flag = False, tune_interval = 1, steps_until_tune = 0,
       accepted = 1, proposal_dist = (normal_proposal, [1]), discrete = [False]\<rparr>
     [([0], 0, [0], flat_logp)]
   = Inr \<lparr>scaling = 3, tune_flag = False, tune_interval = 1, steps_until_tune = - 1,
            accepted = 2, proposal_dist = (normal_proposal, [1]), discrete = [False]\<rparr>
   \<and> scaling \<lparr>scaling = 3, tune_flag = False, tune_interval = 1, steps_until_tune = - 1,
            accepted = 2, proposal_dist = (normal_proposal, [1]), discrete = [False]\<rparr>
     = scaling \<lparr>scaling = 3, tune_flag = False, tune_interval = 1, steps_until_tune = 0,
       accepted = 1, proposal_dist = (normal_proposal, [1]), discrete = [False]\<rparr>"
proof -
  let ?a = "\<lparr>scaling = 3, tune_flag = False, tune_interval = 1, steps_until_tune = 0,
       accepted = 1, proposal_dist = (normal_proposal, [1]), discrete = [False]\<rparr>"
  let ?b = "\<lparr>scaling = 3, tune_flag = False, tune_interval = 1, steps_until_tune = - 1,
            accepted = 2, proposal_dist = (normal_proposal, [1]), discrete = [False]\<rparr>"
  have h1: "Metropolis_astep ?a [0] 0 [0] flat_logp = Inr (?b, [0])"
    by (simp add: eval_defs)
  have h2: "asteps ?a [([0], 0, [0], flat_logp)] = Inr ?b"
    by (simp add: h1)
  have h3: "\<not> tune_flag ?a" by simp
  from scaling_changes_only_at_tuning [of ?a "[0]" 0 "[0]" flat_logp ?b "[0]"
      "[([0], 0, [0], flat_logp)]" ?b] h1 h2 h3
  have "scaling ?b = scaling ?a" by blast
  with h1 h2 show ?thesis by (intro conjI)
qed

section \<open>Properties of the binary Metropolis step\<close>

text \<open>
  Claim C6. The constructor tests membership of each \<open>dtype\<close> in
  \<open>discrete_types\<close>, so it accepts a count variable of type \<open>int64\<close>, which is
  discrete and not Bernoulli, although its error message asks for Bernoulli variables.
\<close>

theorem binary_init_accepts_count_variable:
  "BinaryMetropolis_init [''int8'', ''int16'', ''int32'', ''int64''] [\<lparr>dtype = ''int64''\<rparr>]
       None None None
   = Inr \<lparr>scaling = 1, tune_flag = True, tune_interval = 100, steps_until_tune = 100,
           accepted = 0\<rparr>"
  by (simp add: BinaryMetropolis_init_def)

text \<open>
  Claim C9. Every call of the binary step that returns leaves the scale, the acceptance
  counter and the countdown of the instance unchanged.
\<close>

theorem BinaryMetropolis_astep_frame:
  assumes "BinaryMetropolis_astep self rand u q0 logp = Inr (self1, q_new)"
  shows "scaling self1 = scaling self \<and> accepted self1 = accepted self
    \<and> steps_until_tune self1 = steps_until_tune self"
  using assms by (auto simp: BinaryMetropolis_astep_def Let_def split: sum.splits)

text \<open>
  A call on an instance whose countdown is at zero: no tuning, no counting.
\<close>

theorem BinaryMetropolis_astep_frame_witness:
  "BinaryMetropolis_astep
     \<lparr>scaling = 1, tune_flag = True, tune_interval = 3, steps_until_tune = 0, accepted = 2\<rparr>
     (\<lambda>i. 0) 0 [0, 1] flat_logp
   = Inr (\<lparr>scaling = 1, tune_flag = True, tune_interval = 3, steps_until_tune = 0,
            accepted = 2\<rparr>, [1, 0])
   \<and> scaling \<lparr>scaling = 1, tune_flag = True, tune_interval = 3, steps_until_tune = 0,
        accepted = 2\<rparr> = 1
   \<and> accepted \<lparr>scaling = 1, tune_flag = True, tune_interval = 3, steps_until_tune = 0,
        accepted = 2\<rparr> = 2
   \<and> steps_until_tune \<lparr>scaling = 1, tune_flag = True, tune_interval = 3,
        steps_until_tune = 0, accepted = 2\<rparr> = 0"
proof -
  let ?a = "\<lparr>scaling = 1, tune_flag = True, tune_interval = 3, steps_until_tune = 0,
        accepted = 2\<rparr>"
  have h: "BinaryMetropolis_astep ?a (\<lambda>i. 0) 0 [0, 1] flat_logp = Inr (?a, [1, 0])"
    by (simp add: BinaryMetropolis_astep_def flip_def p_jump_def upt_rec flat_logp_def
        metrop_select_def)
  from BinaryMetropolis_astep_frame [OF h] h show ?thesis by simp
qed

text \<open>
  Claim C10. For an input state whose elements are all 0 or 1, every element of the
  candidate and of the returned state is 0 or 1; the candidate has the length of the
  input, and an element whose draw is not below the flip probability equals the element
  of the input.
\<close>

theorem binary_state_stays_binary:
  assumes "\<forall>x\<in>set q0. x = 0 \<or> x = 1"
  shows "(\<forall>x\<in>set (flip st rand q0). x = 0 \<or> x = 1)
    \<and> (BinaryMetropolis_astep st rand u q0 logp = Inr (st1, q_new)
         \<longrightarrow> (\<forall>x\<in>set q_new. x = 0 \<or> x = 1))
    \<and> length (flip st rand q0) = length q0
    \<and> (i < length q0 \<and> \<not> rand i < p_jump st \<longrightarrow> flip st rand q0 ! i = q0 ! i)"
proof -
  have f: "\<forall>x\<in>set (flip st rand q0). x = 0 \<or> x = 1"
  proof
    fix x assume "x \<in> set (flip st rand q0)"
    then obtain j where j: "j < length (flip st rand q0)" "x = flip st rand q0 ! j"
      by (auto simp: in_set_conv_nth)
    from j(1) have jl: "j < length q0" using flip_nth [of st rand q0 j] by simp
    then have "q0 ! j = 0 \<or> q0 ! j = 1" using assms by simp
    with j(2) jl flip_nth [of st rand q0 j] show "x = 0 \<or> x = 1" by auto
  qed
  have a: "BinaryMetropolis_astep st rand u q0 logp = Inr (st1, q_new)
         \<longrightarrow> (\<forall>x\<in>set q_new. x = 0 \<or> x = 1)"
  proof
    assume "BinaryMetropolis_astep st rand u q0 logp = Inr (st1, q_new)"
    then have "q_new = flip st rand q0 \<or> q_new = q0"
      by (auto simp: BinaryMetropolis_astep_def Let_def metrop_select_def
               split: sum.splits if_splits)
    with f assms show "\<forall>x\<in>set q_new. x = 0 \<or> x = 1" by auto
  qed
  from f a flip_nth [of st rand q0 i] show ?thesis by simp
qed

text \<open>
  The draws 0 and 3/4 at flip probability 1/2: the first element flips, the second is
  kept.
\<close>

theorem binary_state_stays_binary_witness:
  "list_all (\<lambda>x. x = 0 \<or> x = 1) [0, 1 :: real]
   \<and> flip \<lparr>scaling = 1, tune_flag = True, tune_interval = 100, steps_until_tune = 100,
            accepted = 0\<rparr> (\<lambda>i. of_nat i * (3 / 4)) [0, 1] = [1, 1]
   \<and> BinaryMetropolis_astep
        \<lparr>scaling = 1, tune_flag = True, tune_interval = 100, steps_until_tune = 100,
          accepted = 0\<rparr> (\<lambda>i. of_nat i * (3 / 4)) 0 [0, 1] flat_logp
      = Inr (\<lparr>scaling = 1, tune_flag = True, tune_interval = 100, steps_until_tune = 100,
               accepted = 0\<rparr>, [1, 1])
   \<and> list_all (\<lambda>x. x = 0 \<or> x = 1) [1, 1 :: real]
   \<and> [1, 1 :: real] ! 1 = [0, 1] ! 1"
proof -
  let ?a = "\<lparr>scaling = 1, tune_flag = True, tune_interval = 100, steps_until_tune = 100,
            accepted = 0\<rparr>"
  have h: "\<forall>x\<in>set [0, 1 :: real]. x = 0 \<or> x = 1" by simp
  have p: "p_jump ?a = 1 / 2" by (simp add: p_jump_def)
  have f: "flip ?a (\<lambda>i. of_nat i * (3 / 4)) [0, 1] = [1, 1]"
    by (simp add: flip_def p_jump_def upt_rec)
  have s: "BinaryMetropolis_astep ?a (\<lambda>i. of_nat i * (3 / 4)) 0 [0, 1] flat_logp
      = Inr (?a, [1, 1])"
    by (simp add: BinaryMetropolis_astep_def flip_def p_jump_def upt_rec flat_logp_def
        metrop_select_def)
  note r = binary_state_stays_binary [OF h, of ?a "\<lambda>i. of_nat i * (3 / 4)" 0 flat_logp ?a
      "[1, 1]" 1]
  from r s have "\<forall>x\<in>set [1, 1 :: real]. x = 0 \<or> x = 1" by blast
  then have a: "list_all (\<lambda>x. x = 0 \<or> x = 1) [1, 1 :: real]"
    by (simp only: list_all_iff)
  from h have g: "list_all (\<lambda>x. x = 0 \<or> x = 1) [0, 1 :: real]"
    by (simp only: list_all_iff)
  from r f p have b: "[1, 1 :: real] ! 1 = [0, 1] ! 1" by simp
  from g f s a b show ?thesis by (intro conjI)
qed

end
